theory Spec2Isabelle
  imports Main "HOL-Library.Char_ord"
begin

section \<open>The DOM as the scripts see it\<close>

text \<open>
  The scripts of FreshView read a rendered YouTube page through the DOM interface of the
  browser.  The properties an element exposes to them are its tag (the name as a type
  selector matches it, in lower case), its \<open>id\<close>
  (the empty string when the attribute is absent, never \<open>undefined\<close>), its classes,
  its other attributes (what \<open>getAttribute\<close> answers), the two inline style
  properties \<open>style.display\<close> and \<open>style.width\<close>, and its child nodes.  Nodes
  that are not elements (text, comments) have none of these; they only take a place among
  the siblings.
\<close>

record elem =
  tagName :: string
  elem_id :: string
  classList :: "string list"
  attributes :: "(string \<times> string) list"
  style_display :: string
  style_width :: string

datatype node = Element elem "node list" | Text string

text \<open>
  A \<open>Video\<close> wraps an element of the page: a result of \<open>querySelectorAll\<close>, hence an
  element below the document.  Such an element is given together with its place in the
  tree: its preceding siblings (\<open>lefts\<close>, the nearest first, which is the chain that
  \<open>previousSibling\<close> follows), its following siblings, and one frame per element
  ancestor, the parent first.  Above the last frame is the document, the one node on the
  way up that has no \<open>id\<close> property.
\<close>

datatype frame = Frame elem "node list" "node list"

record eloc =
  el :: elem
  childNodes :: "node list"
  lefts :: "node list"
  rights :: "node list"
  ups :: "frame list"

text \<open>The values of \<open>node\<close> in the outer loop of \<open>derivePath\<close>: an element or the document.\<close>

datatype cursor = AtElement eloc | AtDocument

text \<open>\<open>node.id\<close>: a string on every element, \<open>undefined\<close> (\<open>None\<close>) on the document.\<close>

fun node_id :: "cursor \<Rightarrow> string option" where
  "node_id (AtElement l) = Some (elem_id (el l))"
| "node_id AtDocument = None"

text \<open>\<open>node.parentNode\<close> of an element: the parent element, rebuilt with all its children, or the document.\<close>

fun parentNode :: "eloc \<Rightarrow> cursor" where
  "parentNode l =
     (case ups l of
        [] \<Rightarrow> AtDocument
      | Frame p pl pr # anc \<Rightarrow>
          AtElement \<lparr>el = p,
                     childNodes = rev (lefts l) @ Element (el l) (childNodes l) # rights l,
                     lefts = pl, rights = pr, ups = anc\<rparr>)"

subsection \<open>Selectors\<close>

text \<open>
  Every selector of the scripts is \<open>:scope\<close>, a descendant combinator and one compound
  selector, or the compound selector alone; on \<open>element.querySelector\<close> both forms select
  among the descendants of the element.  A compound selector is a tag, an id, classes,
  attributes that must be present and attributes that must be absent (\<open>:not([a])\<close>).
\<close>

record compound =
  sel_tag :: "string option"
  sel_id :: "string option"
  sel_classes :: "string list"
  sel_attrs :: "string list"
  sel_not_attrs :: "string list"

definition hasAttribute :: "elem \<Rightarrow> string \<Rightarrow> bool" where
  "hasAttribute e a = (map_of (attributes e) a \<noteq> None)"

definition getAttribute :: "elem \<Rightarrow> string \<Rightarrow> string option" where
  "getAttribute e a = map_of (attributes e) a"

definition matches :: "compound \<Rightarrow> elem \<Rightarrow> bool" where
  "matches s e =
     ((case sel_tag s of None \<Rightarrow> True | Some t \<Rightarrow> tagName e = t) \<and>
      (case sel_id s of None \<Rightarrow> True | Some i \<Rightarrow> elem_id e = i) \<and>
      list_all (\<lambda>c. c \<in> set (classList e)) (sel_classes s) \<and>
      list_all (hasAttribute e) (sel_attrs s) \<and>
      list_all (\<lambda>a. \<not> hasAttribute e a) (sel_not_attrs s))"

text \<open>A selector list (the selectors joined by a comma) matches where one of its members does.\<close>

definition matches_any :: "compound list \<Rightarrow> elem \<Rightarrow> bool" where
  "matches_any sels e = list_ex (\<lambda>s. matches s e) sels"

text \<open>
  \<open>querySelectorAll\<close> walks the subtree below the element in tree order (an element
  ahead of its children, the children from first to last) and keeps the elements that match.
  \<open>select_all anc prev nodes\<close> walks the child list \<open>nodes\<close> of a parent whose
  frames are \<open>anc\<close>, with \<open>prev\<close> the children already passed.
\<close>

fun select_all :: "compound list \<Rightarrow> frame list \<Rightarrow> node list \<Rightarrow> node list \<Rightarrow> eloc list" where
  "select_all sels anc prev [] = []"
| "select_all sels anc prev (Text t # nxt) =
     select_all sels anc (Text t # prev) nxt"
| "select_all sels anc prev (Element e kids # nxt) =
     (if matches_any sels e
      then [\<lparr>el = e, childNodes = kids, lefts = prev, rights = nxt, ups = anc\<rparr>]
      else [])
     @ select_all sels (Frame e prev nxt # anc) [] kids
     @ select_all sels anc (Element e kids # prev) nxt"

definition querySelectorAll :: "eloc \<Rightarrow> compound list \<Rightarrow> eloc list" where
  "querySelectorAll l sels =
     select_all sels (Frame (el l) (lefts l) (rights l) # ups l) [] (childNodes l)"

text \<open>
  \<open>querySelector\<close> answers the first element of that walk, or \<open>null\<close>.  It is written
  as the walk that stops at the first match.
\<close>

fun select_first :: "compound list \<Rightarrow> frame list \<Rightarrow> node list \<Rightarrow> node list \<Rightarrow> eloc option" where
  "select_first sels anc prev [] = None"
| "select_first sels anc prev (Text t # nxt) =
     select_first sels anc (Text t # prev) nxt"
| "select_first sels anc prev (Element e kids # nxt) =
     (if matches_any sels e
      then Some \<lparr>el = e, childNodes = kids, lefts = prev, rights = nxt, ups = anc\<rparr>
      else (case select_first sels (Frame e prev nxt # anc) [] kids of
              Some found \<Rightarrow> Some found
            | None \<Rightarrow> select_first sels anc (Element e kids # prev) nxt))"

definition querySelector :: "eloc \<Rightarrow> compound list \<Rightarrow> eloc option" where
  "querySelector l sels =
     select_first sels (Frame (el l) (lefts l) (rights l) # ups l) [] (childNodes l)"

section \<open>Strings and numbers of the script\<close>

text \<open>
  \<open>"/" + index + path\<close> writes the number \<open>index\<close>, a count and so a natural number,
  in decimal.
\<close>

definition digit_char :: "nat \<Rightarrow> char" where
  "digit_char d = char_of (of_char (CHR ''0'') + d)"

fun number_to_string :: "nat \<Rightarrow> string" where
  "number_to_string n =
     (if n < 10 then [digit_char n]
      else number_to_string (n div 10) @ [digit_char (n mod 10)])"

declare number_to_string.simps [simp del]

text \<open>\<open>s.slice(0, -1)\<close>: the string without its last character; the empty string stays empty.\<close>

definition slice_0_minus1 :: "string \<Rightarrow> string" where
  "slice_0_minus1 s = take (length s - 1) s"

text \<open>
  \<open>parseInt(s, 10)\<close>: leading white space is skipped, one sign is read, then the longest
  run of decimal digits; what follows is ignored.  With no digit there the result is
  \<open>NaN\<close>, here \<open>None\<close>.  The value is kept as an exact integer.
\<close>

definition is_white_space :: "char \<Rightarrow> bool" where
  "is_white_space c = (c \<in> set [CHR '' '', CHR 0x09, CHR 0x0A, CHR 0x0B, CHR 0x0C, CHR 0x0D])"

definition is_digit :: "char \<Rightarrow> bool" where
  "is_digit c = (CHR ''0'' \<le> c \<and> c \<le> CHR ''9'')"

definition digit_value :: "char \<Rightarrow> int" where
  "digit_value c = int (of_char c) - int (of_char (CHR ''0''))"

fun digits_value :: "int \<Rightarrow> string \<Rightarrow> int" where
  "digits_value acc [] = acc"
| "digits_value acc (c # cs) = digits_value (10 * acc + digit_value c) cs"

definition parse_digits :: "string \<Rightarrow> int option" where
  "parse_digits s =
     (let ds = takeWhile is_digit s
      in if ds = [] then None else Some (digits_value 0 ds))"

definition parseInt :: "string \<Rightarrow> int option" where
  "parseInt s =
     (case dropWhile is_white_space s of
        [] \<Rightarrow> None
      | c # cs \<Rightarrow>
          if c = CHR ''-'' then map_option uminus (parse_digits cs)
          else if c = CHR ''+'' then parse_digits cs
          else parse_digits (c # cs))"

text \<open>
  \<open>href.match(/v=([a-zA-Z0-9_\-]+)/)\<close>: the leftmost place where \<open>v=\<close> is followed
  by at least one character of the class; the group is the longest run of such characters
  there.  \<open>None\<close> is the \<open>null\<close> of no match, otherwise the value is \<open>matches[1]\<close>.
\<close>

definition is_id_char :: "char \<Rightarrow> bool" where
  "is_id_char c =
     ((CHR ''a'' \<le> c \<and> c \<le> CHR ''z'') \<or> (CHR ''A'' \<le> c \<and> c \<le> CHR ''Z'') \<or>
      (CHR ''0'' \<le> c \<and> c \<le> CHR ''9'') \<or> c = CHR ''_'' \<or> c = CHR ''-'')"

fun match_here :: "string \<Rightarrow> string option" where
  "match_here (a # b # rest) =
     (if a = CHR ''v'' \<and> b = CHR ''='' \<and> takeWhile is_id_char rest \<noteq> []
      then Some (takeWhile is_id_char rest) else None)"
| "match_here s = None"

fun match_v :: "string \<Rightarrow> string option" where
  "match_v [] = None"
| "match_v (c # cs) =
     (case match_here (c # cs) of Some g \<Rightarrow> Some g | None \<Rightarrow> match_v cs)"

text \<open>What \<open>x ? a : b\<close>, \<open>x || y\<close> and \<open>x && y\<close> test on a value that is a string or \<open>undefined\<close>.\<close>

fun truthy :: "string option \<Rightarrow> bool" where
  "truthy None = False"
| "truthy (Some s) = (s \<noteq> [])"

section \<open>The Video class\<close>

text \<open>
  A \<open>Video\<close> object: the wrapped element (with its place in the page), the display
  value read at construction, and the three fields that start as \<open>undefined\<close>.
  The element is part of the state because \<open>hide\<close> and \<open>show\<close> write its style.
  The calls to \<open>Logger\<close> write to a log that no method reads back; they are left out.
\<close>

record video =
  element :: eloc
  display :: string
  video_id :: "string option"
  title :: "string option"
  viewed :: "bool option"

text \<open>Reading a property of \<open>null\<close> throws; it is the one exception the methods can raise.\<close>

datatype error = TypeError

definition new_Video :: "eloc \<Rightarrow> video" where
  "new_Video e =
     \<lparr>element = e, display = style_display (el e),
      video_id = None, title = None, viewed = None\<rparr>"

subsection \<open>deriveURL\<close>

definition anchor :: "string option \<Rightarrow> string list \<Rightarrow> compound" where
  "anchor i cs =
     \<lparr>sel_tag = Some ''a'', sel_id = i, sel_classes = cs, sel_attrs = [], sel_not_attrs = []\<rparr>"

definition deriveURL_selectors :: "compound list" where
  "deriveURL_selectors =
     [anchor (Some ''video-title'') [''yt-simple-endpoint'', ''style-scope'', ''ytd-grid-video-renderer''],
      anchor (Some ''video-title-link'') [''yt-simple-endpoint'', ''style-scope'', ''ytd-rich-grid-media''],
      anchor None [''yt-simple-endpoint'', ''style-scope'', ''ytd-playlist-video-renderer''],
      anchor None [''yt-simple-endpoint'', ''style-scope'', ''ytd-playlist-panel-video-renderer''],
      anchor None [''yt-lockup-metadata-view-model-wiz__title''],
      anchor None [''yt-simple-endpoint'', ''style-scope'', ''ytd-compact-video-renderer''],
      anchor (Some ''video-title'') [''yt-simple-endpoint'', ''style-scope'', ''ytd-video-renderer''],
      anchor None [''yt-lockup-view-model__title''],
      anchor None [''yt-lockup-view-model__content-image'']]"

text \<open>
  Lines 42 to 50: from the hyperlink found to the result.  \<open>getAttribute\<close> answers
  \<open>null\<close> for an anchor without \<open>href\<close>, and \<open>href.match\<close> then throws.
\<close>

definition hyperlink_id :: "eloc \<Rightarrow> error + string option" where
  "hyperlink_id hyperlink =
     (case getAttribute (el hyperlink) ''href'' of
        None \<Rightarrow> Inl TypeError
      | Some href \<Rightarrow> Inr (match_v href))"

text \<open>
  The method, with the selector list as a parameter: the list is joined into one selector
  list and handed to a single \<open>querySelector\<close>.
\<close>

definition deriveURL_from :: "compound list \<Rightarrow> video \<Rightarrow> error + string option" where
  "deriveURL_from selectors v =
     (case querySelector (element v) selectors of
        None \<Rightarrow> Inr None
      | Some hyperlink \<Rightarrow> hyperlink_id hyperlink)"

definition deriveURL :: "video \<Rightarrow> error + string option" where
  "deriveURL v = deriveURL_from deriveURL_selectors v"

subsection \<open>derivePath\<close>

text \<open>
  The inner loop: \<open>sib\<close> runs over the chain of previous siblings until \<open>null\<close>,
  and \<open>index\<close> is incremented at each of them, whatever kind of node it is.
\<close>

fun count_siblings :: "node list \<Rightarrow> nat \<Rightarrow> nat" where
  "count_siblings [] index = index"
| "count_siblings (sib # earlier) index = count_siblings earlier (Suc index)"

text \<open>
  The outer loop: it runs while \<open>node.id !== undefined\<close>, and steps to
  \<open>node.parentNode\<close>.  The test fails at the document and nowhere else
  (\<open>node_id\<close> is \<open>None\<close> there only), which gives the two equations.
\<close>

function derivePath_loop :: "cursor \<Rightarrow> string \<Rightarrow> string" where
  "derivePath_loop AtDocument path = path"
| "derivePath_loop (AtElement l) path =
     derivePath_loop (parentNode l)
       (''/'' @ number_to_string (count_siblings (lefts l) 0) @ path)"
  by pat_completeness auto
termination
  by (relation "measure (\<lambda>(node, path).
         case node of AtDocument \<Rightarrow> 0 | AtElement l \<Rightarrow> Suc (length (ups l)))")
     (auto split: list.splits frame.splits)

definition derivePath :: "video \<Rightarrow> string" where
  "derivePath v = derivePath_loop (AtElement (element v)) ''/''"

subsection \<open>fetchID and getID\<close>

text \<open>
  Lines 70 and 71.  \<open>url && path\<close> is \<open>url\<close> when \<open>url\<close> is falsy and \<open>path\<close>
  otherwise; \<open>path + url\<close> converts \<open>url\<close> to a string.
\<close>

fun to_string :: "string option \<Rightarrow> string" where
  "to_string None = ''undefined''"
| "to_string (Some s) = s"

definition make_id :: "string option \<Rightarrow> string \<Rightarrow> string option" where
  "make_id url path =
     (let legal = (if truthy url then Some path else url)
      in if truthy legal then Some (path @ to_string url) else None)"

text \<open>A method that writes a field returns its result and the object after the call.\<close>

definition fetchID :: "video \<Rightarrow> (error + string option) \<times> video" where
  "fetchID v =
     (case deriveURL v of
        Inl err \<Rightarrow> (Inl err, v)
      | Inr url \<Rightarrow>
          (let path = derivePath v;
               v' = v\<lparr>video_id := make_id url path\<rparr>
           in (Inr (video_id v'), v')))"

definition getID :: "video \<Rightarrow> (error + string option) \<times> video" where
  "getID v = (if truthy (video_id v) then (Inr (video_id v), v) else fetchID v)"

subsection \<open>getViewed\<close>

definition division :: "string option \<Rightarrow> string list \<Rightarrow> compound" where
  "division i cs =
     \<lparr>sel_tag = Some ''div'', sel_id = i, sel_classes = cs, sel_attrs = [], sel_not_attrs = []\<rparr>"

definition getViewed_selectors :: "compound list" where
  "getViewed_selectors =
     [division None [''ytThumbnailOverlayProgressBarHostWatchedProgressBarSegment''],
      division (Some ''progress'') [''style-scope'', ''ytd-thumbnail-overlay-resume-playback-renderer'']]"

text \<open>
  \<open>progress >= threshold\<close> is false when \<open>progress\<close> is \<open>NaN\<close>.  The threshold is
  an integer.
\<close>

definition getViewed :: "int \<Rightarrow> video \<Rightarrow> bool option \<times> video" where
  "getViewed threshold v =
     (case querySelector (element v) getViewed_selectors of
        None \<Rightarrow> (None, v)
      | Some bar \<Rightarrow>
          (let width = slice_0_minus1 (style_width (el bar));
               progress = parseInt width;
               v' = v\<lparr>viewed := Some (case progress of None \<Rightarrow> False | Some p \<Rightarrow> p \<ge> threshold)\<rparr>
           in (viewed v', v')))"

subsection \<open>hide and show\<close>

definition set_display :: "string \<Rightarrow> eloc \<Rightarrow> eloc" where
  "set_display d l = l\<lparr>el := (el l)\<lparr>style_display := d\<rparr>\<rparr>"

definition hide :: "video \<Rightarrow> video" where
  "hide v = v\<lparr>element := set_display ''none'' (element v)\<rparr>"

definition show_video :: "video \<Rightarrow> video" where
  "show_video v = v\<lparr>element := set_display (display v) (element v)\<rparr>"

section \<open>The Extractor class\<close>

text \<open>
  The free function \<open>extract(element, ...selectors)\<close>: one \<open>querySelectorAll\<close> per
  selector, the results concatenated in the order of the selectors.
\<close>

definition extract_elements :: "eloc \<Rightarrow> compound list \<Rightarrow> eloc list" where
  "extract_elements e selectors = concat (map (\<lambda>selector. querySelectorAll e [selector]) selectors)"

definition renderer :: "string \<Rightarrow> string list \<Rightarrow> string list \<Rightarrow> string list \<Rightarrow> compound" where
  "renderer t cs has hasnt =
     \<lparr>sel_tag = Some t, sel_id = None, sel_classes = cs, sel_attrs = has, sel_not_attrs = hasnt\<rparr>"

definition extractExploreVideos :: "eloc \<Rightarrow> eloc list" where
  "extractExploreVideos e = extract_elements e
     [renderer ''ytd-video-renderer'' [''style-scope'', ''ytd-expanded-shelf-contents-renderer''] [] []]"

definition extractGridVideos :: "eloc \<Rightarrow> eloc list" where
  "extractGridVideos e = extract_elements e
     [renderer ''ytd-grid-video-renderer'' [''style-scope'', ''yt-horizontal-list-renderer''] [] [],
      renderer ''ytd-grid-video-renderer'' [''style-scope'', ''ytd-grid-renderer''] [] []]"

definition extractHistoryVideos :: "eloc \<Rightarrow> eloc list" where
  "extractHistoryVideos e = extract_elements e
     [renderer ''ytd-video-renderer'' [''style-scope'', ''ytd-item-section-renderer''] [''is-history''] []]"

definition extractHomeVideos :: "eloc \<Rightarrow> eloc list" where
  "extractHomeVideos e = extract_elements e
     [renderer ''yt-lockup-view-model'' [''ytd-rich-item-renderer'', ''lockup''] [] [],
      renderer ''ytd-rich-item-renderer'' [''style-scope'', ''ytd-rich-shelf-renderer''] [] []]"

definition extractPlaylistVideos :: "eloc \<Rightarrow> eloc list" where
  "extractPlaylistVideos e = extract_elements e
     [renderer ''ytd-playlist-video-renderer'' [''style-scope'', ''ytd-playlist-video-list-renderer''] [] [],
      renderer ''ytd-playlist-panel-video-renderer'' [''style-scope'', ''ytd-playlist-panel-renderer''] [] []]"

definition extractRecommendedVideos :: "eloc \<Rightarrow> eloc list" where
  "extractRecommendedVideos e = extract_elements e
     [renderer ''yt-lockup-view-model'' [''ytd-item-section-renderer'', ''lockup''] [] []]"

definition extractSearchVideos :: "eloc \<Rightarrow> eloc list" where
  "extractSearchVideos e = extract_elements e
     [renderer ''ytd-video-renderer'' [''style-scope'', ''ytd-vertical-list-renderer''] [] [],
      renderer ''ytd-video-renderer'' [''style-scope'', ''ytd-item-section-renderer''] [] [''is-history'']]"

text \<open>
  The registry is a JavaScript \<open>Set\<close> of function objects: it keeps each member once,
  compares members as references, and iterates in the order of insertion.  A reference is
  a value of a type \<open>'f\<close>; the function behind a reference is given by \<open>call\<close>, so
  that two references may well behave alike and still be two members.  The built-in
  subextractors are the references of \<open>builtin\<close>.
\<close>

datatype builtin =
  ExploreVideos | GridVideos | HistoryVideos | HomeVideos
  | PlaylistVideos | RecommendedVideos | SearchVideos

fun call_builtin :: "builtin \<Rightarrow> eloc \<Rightarrow> eloc list" where
  "call_builtin ExploreVideos = extractExploreVideos"
| "call_builtin GridVideos = extractGridVideos"
| "call_builtin HistoryVideos = extractHistoryVideos"
| "call_builtin HomeVideos = extractHomeVideos"
| "call_builtin PlaylistVideos = extractPlaylistVideos"
| "call_builtin RecommendedVideos = extractRecommendedVideos"
| "call_builtin SearchVideos = extractSearchVideos"

definition Set_add :: "'a \<Rightarrow> 'a list \<Rightarrow> 'a list" where
  "Set_add x xs = (if x \<in> set xs then xs else xs @ [x])"

definition Set_delete :: "'a \<Rightarrow> 'a list \<Rightarrow> 'a list" where
  "Set_delete x xs = filter (\<lambda>y. y \<noteq> x) xs"

record 'f extractor =
  subextractors :: "'f list"

definition new_Extractor :: "'f extractor" where
  "new_Extractor = \<lparr>subextractors = []\<rparr>"

definition Extractor_insert :: "'f \<Rightarrow> 'f extractor \<Rightarrow> 'f extractor" where
  "Extractor_insert subextractor ex = ex\<lparr>subextractors := Set_add subextractor (subextractors ex)\<rparr>"

definition Extractor_remove :: "'f \<Rightarrow> 'f extractor \<Rightarrow> 'f extractor" where
  "Extractor_remove subextractor ex = ex\<lparr>subextractors := Set_delete subextractor (subextractors ex)\<rparr>"

text \<open>
  \<open>videos.filter(video => video.getViewed(threshold))\<close> keeps the videos for which the
  call answers \<open>true\<close> (\<open>false\<close> and \<open>undefined\<close> are falsy); each kept object is
  the one the call has written to.
\<close>

fun filter_viewed :: "int \<Rightarrow> video list \<Rightarrow> video list" where
  "filter_viewed threshold [] = []"
| "filter_viewed threshold (v # vs) =
     (case getViewed threshold v of
        (answer, v') \<Rightarrow>
          if answer = Some True then v' # filter_viewed threshold vs
          else filter_viewed threshold vs)"

definition Extractor_extract ::
  "('f \<Rightarrow> eloc \<Rightarrow> eloc list) \<Rightarrow> 'f extractor \<Rightarrow> eloc \<Rightarrow> int \<Rightarrow> video list" where
  "Extractor_extract call ex e threshold =
     (let elements = concat (map (\<lambda>subextractor. call subextractor e) (subextractors ex));
          videos = map new_Video elements
      in filter_viewed threshold videos)"

text \<open>The registry of every extractor built from the constructor has each member once.\<close>

definition Set_ok :: "'f extractor \<Rightarrow> bool" where
  "Set_ok ex = distinct (subextractors ex)"

section \<open>Notions used to state the properties\<close>

text \<open>
  The elements below a parent in tree order, each with its place: the walk of
  \<open>querySelectorAll\<close> without the test.
\<close>

fun walk :: "frame list \<Rightarrow> node list \<Rightarrow> node list \<Rightarrow> eloc list" where
  "walk anc prev [] = []"
| "walk anc prev (Text t # nxt) = walk anc (Text t # prev) nxt"
| "walk anc prev (Element e kids # nxt) =
     \<lparr>el = e, childNodes = kids, lefts = prev, rights = nxt, ups = anc\<rparr>
     # walk (Frame e prev nxt # anc) [] kids
     @ walk anc (Element e kids # prev) nxt"

definition descendants :: "eloc \<Rightarrow> eloc list" where
  "descendants l = walk (Frame (el l) (lefts l) (rights l) # ups l) [] (childNodes l)"

text \<open>
  The selection as the specification words it: the selectors are tried one at a time, in
  the order of the list, and the first selector that has a match in the subtree decides.
\<close>

fun first_by_priority :: "eloc \<Rightarrow> compound list \<Rightarrow> eloc option" where
  "first_by_priority l [] = None"
| "first_by_priority l (s # ss) =
     (case querySelector l [s] of
        Some a \<Rightarrow> Some a
      | None \<Rightarrow> first_by_priority l ss)"

definition deriveURL_by_priority :: "video \<Rightarrow> error + string option" where
  "deriveURL_by_priority v =
     (case first_by_priority (element v) deriveURL_selectors of
        None \<Rightarrow> Inr None
      | Some hyperlink \<Rightarrow> hyperlink_id hyperlink)"

text \<open>
  The levels from the outermost element ancestor down to the element itself: at each
  level the number of preceding siblings, and the \<open>id\<close> of the element there.
\<close>

fun frame_index :: "frame \<Rightarrow> nat" where
  "frame_index (Frame p pl pr) = length pl"

fun frame_id :: "frame \<Rightarrow> string" where
  "frame_id (Frame p pl pr) = elem_id p"

definition level_indices :: "eloc \<Rightarrow> nat list" where
  "level_indices l = rev (length (lefts l) # map frame_index (ups l))"

definition level_ids :: "eloc \<Rightarrow> string list" where
  "level_ids l = rev (elem_id (el l) # map frame_id (ups l))"

text \<open>
  The path as the specification words it: only the levels whose element has no \<open>id\<close>
  attribute count, and the string is \<open>/i1/i2/.../in\<close>.
\<close>

definition derivePath_as_specified :: "video \<Rightarrow> string" where
  "derivePath_as_specified v =
     concat (map (\<lambda>(i, n). ''/'' @ number_to_string n)
       (filter (\<lambda>(i, n). i = []) (zip (level_ids (element v)) (level_indices (element v)))))"

subsection \<open>A sample page\<close>

text \<open>
  One entry of a home page: a lockup whose thumbnail link holds the progress bar, followed
  by two title links, the first in the current markup and the second in the markup of the
  recommendations.  The lockup is the second child of the element \<open>#contents\<close>, which
  is the fourth child of the document.
\<close>

definition plain :: "string \<Rightarrow> string \<Rightarrow> string list \<Rightarrow> (string \<times> string) list \<Rightarrow> elem" where
  "plain t i cs as =
     \<lparr>tagName = t, elem_id = i, classList = cs, attributes = as,
      style_display = [], style_width = []\<rparr>"

definition sample_bar :: "string \<Rightarrow> node" where
  "sample_bar w =
     Element ((plain ''div'' [] [''ytThumbnailOverlayProgressBarHostWatchedProgressBarSegment''] [])
                \<lparr>style_width := w\<rparr>) []"

definition sample_title :: node where
  "sample_title =
     Element (plain ''div'' [] [''yt-lockup-metadata-view-model''] [])
       [Element (plain ''a'' [] [''yt-lockup-view-model__title''] [(''href'', ''/watch?v=abc123&t=5s'')])
          [Text ''A title''],
        Element (plain ''a'' [] [''yt-lockup-metadata-view-model-wiz__title''] [(''href'', ''/watch?v=xyz789'')])
          [Text ''Another title'']]"

definition sample_thumbnail :: "node list \<Rightarrow> node" where
  "sample_thumbnail overlay =
     Element (plain ''a'' [] [''yt-lockup-view-model-wiz__content-image'']
                [(''href'', ''/watch?v=abc123&t=5s'')]) overlay"

definition sample_lockup :: "node list \<Rightarrow> eloc" where
  "sample_lockup kids =
     \<lparr>el = plain ''yt-lockup-view-model'' [] [''ytd-rich-item-renderer'', ''lockup''] [],
      childNodes = kids,
      lefts = [Element (plain ''div'' [] [] []) []],
      rights = [],
      ups = [Frame (plain ''div'' ''contents'' [] []) [Text '' '', Text '' '', Text '' ''] []]\<rparr>"

definition sample_element :: "string \<Rightarrow> eloc" where
  "sample_element w = sample_lockup [sample_thumbnail [sample_bar w], sample_title]"

definition unwatched_element :: eloc where
  "unwatched_element = sample_lockup [sample_thumbnail [], sample_title]"

text \<open>The element \<open>#contents\<close> itself, holding the watched lockup: a root to extract from.\<close>

definition sample_contents :: eloc where
  "sample_contents =
     \<lparr>el = plain ''div'' ''contents'' [] [],
      childNodes =
        [Element (plain ''div'' [] [] []) [],
         Element (el (sample_element ''50%'')) (childNodes (sample_element ''50%''))],
      lefts = [Text '' '', Text '' '', Text '' ''],
      rights = [],
      ups = []\<rparr>"

text \<open>
  A video that was seen with its bar at 50 percent, after the page has redrawn its
  element without the bar.
\<close>

definition stale_video :: video where
  "stale_video =
     (snd (getViewed 50 (new_Video (sample_element ''50%''))))\<lparr>element := unwatched_element\<rparr>"

section \<open>Auxiliary facts\<close>

lemma select_all_filter:
  "select_all sels anc prev nodes = filter (\<lambda>d. matches_any sels (el d)) (walk anc prev nodes)"
  by (induction sels anc prev nodes rule: select_all.induct) auto

lemma find_app:
  "find P (xs @ ys) = (case find P xs of None \<Rightarrow> find P ys | Some x \<Rightarrow> Some x)"
  by (induction xs) auto

lemma select_first_find:
  "select_first sels anc prev nodes = find (\<lambda>d. matches_any sels (el d)) (walk anc prev nodes)"
  by (induction sels anc prev nodes rule: select_first.induct) (auto simp: find_app split: option.splits)

lemma querySelector_find:
  "querySelector l sels = find (\<lambda>d. matches_any sels (el d)) (descendants l)"
  by (simp add: querySelector_def descendants_def select_first_find)

lemma matches_any_set:
  "set sels = set sels' \<Longrightarrow> matches_any sels e = matches_any sels' e"
  by (auto simp: matches_any_def list_ex_iff)

lemma node_id_undefined: "(node_id node = None) = (node = AtDocument)"
  by (cases node) auto

lemma count_siblings_length: "count_siblings ls k = k + length ls"
  by (induction ls arbitrary: k) auto

lemma loop_indices:
  "derivePath_loop (AtElement l) path =
     concat (map (\<lambda>i. ''/'' @ number_to_string i) (level_indices l)) @ path"
proof (induction "ups l" arbitrary: l path)
  case Nil
  then show ?case by (simp add: level_indices_def count_siblings_length)
next
  case (Cons f fs)
  obtain p pl pr where f: "f = Frame p pl pr" by (cases f)
  from Cons(2) f have u: "ups l = Frame p pl pr # fs" by simp
  let ?parent = "\<lparr>el = p, childNodes = rev (lefts l) @ Element (el l) (childNodes l) # rights l,
                     lefts = pl, rights = pr, ups = fs\<rparr>"
  have "fs = ups ?parent" by simp
  from Cons(1)[OF this] u show ?case
    by (simp add: level_indices_def count_siblings_length)
qed

lemma digit_char_is_digit: "d < 10 \<Longrightarrow> is_digit (digit_char d)"
  apply (simp add: is_digit_def digit_char_def less_eq_char_def)
  done

lemma digit_value_digit_char: "d < 10 \<Longrightarrow> digit_value (digit_char d) = int d"
  by (simp add: digit_value_def digit_char_def)


lemma number_to_string_digits: "list_all is_digit (number_to_string n)"
proof (induction n rule: number_to_string.induct)
  case (1 n)
  show ?case
  proof (cases "n < 10")
    case True
    then show ?thesis by (subst number_to_string.simps) (simp add: digit_char_is_digit)
  next
    case False
    with 1 have "list_all is_digit (number_to_string (n div 10))" by simp
    moreover have "is_digit (digit_char (n mod 10))" by (rule digit_char_is_digit) simp
    ultimately show ?thesis using False by (subst number_to_string.simps) simp
  qed
qed

lemma number_to_string_nonempty: "number_to_string n \<noteq> []"
  by (subst number_to_string.simps) simp

lemma digits_value_append:
  "digits_value acc (xs @ ys) = digits_value (digits_value acc xs) ys"
  by (induction xs arbitrary: acc) auto

lemma digits_value_number: "digits_value 0 (number_to_string n) = int n"
proof (induction n rule: number_to_string.induct)
  case (1 n)
  show ?case
  proof (cases "n < 10")
    case True
    then show ?thesis by (subst number_to_string.simps) (simp add: digit_value_digit_char)
  next
    case False
    with 1 have ih: "digits_value 0 (number_to_string (n div 10)) = int (n div 10)" by simp
    have "digits_value 0 (number_to_string n) =
            digits_value 0 (number_to_string (n div 10) @ [digit_char (n mod 10)])"
      using False by (subst number_to_string.simps) simp
    also have "\<dots> = 10 * int (n div 10) + int (n mod 10)"
      by (simp add: digits_value_append ih digit_value_digit_char)
    also have "\<dots> = int n" by (simp add: zmod_int zdiv_int)
    finally show ?thesis .
  qed
qed

lemma takeWhile_digits:
  assumes "list_all is_digit ds" "takeWhile is_digit rest = []"
  shows "takeWhile is_digit (ds @ rest) = ds"
  using assms by (induction ds) auto

lemma parse_digits_number:
  assumes "takeWhile is_digit rest = []"
  shows "parse_digits (number_to_string n @ rest) = Some (int n)"
  using assms
  by (simp add: parse_digits_def takeWhile_digits number_to_string_digits
      number_to_string_nonempty digits_value_number)

lemma digit_not_special:
  "is_digit c \<Longrightarrow> \<not> is_white_space c \<and> c \<noteq> CHR ''-'' \<and> c \<noteq> CHR ''+''"
  by (auto simp: is_digit_def is_white_space_def less_eq_char_def)

lemma parseInt_number:
  assumes "takeWhile is_digit rest = []"
  shows "parseInt (number_to_string n @ rest) = Some (int n)"
proof -
  obtain c cs where s: "number_to_string n = c # cs"
    using number_to_string_nonempty by (cases "number_to_string n") auto
  have "is_digit c" using number_to_string_digits[of n] s by simp
  then have c: "\<not> is_white_space c" "c \<noteq> CHR ''-''" "c \<noteq> CHR ''+''"
    using digit_not_special by auto
  have "parseInt (number_to_string n @ rest) = parse_digits (number_to_string n @ rest)"
    using c by (simp add: parseInt_def s)
  then show ?thesis using assms by (simp add: parse_digits_number)
qed

lemma slice_snoc: "slice_0_minus1 (s @ [c]) = s"
  by (simp add: slice_0_minus1_def)

lemma match_here_nonempty: "match_here s = Some g \<Longrightarrow> g \<noteq> []"
  by (cases s rule: match_here.cases) (auto split: if_splits)

lemma match_v_nonempty: "match_v s = Some g \<Longrightarrow> g \<noteq> []"
  by (induction s) (auto split: option.splits dest: match_here_nonempty)

lemma derivePath_shape:
  "derivePath v = concat (map (\<lambda>i. ''/'' @ number_to_string i) (level_indices (element v))) @ ''/''"
  by (simp only: derivePath_def loop_indices)

lemma deriveURL_nonempty: "deriveURL v = Inr (Some g) \<Longrightarrow> g \<noteq> []"
  by (auto simp: deriveURL_def deriveURL_from_def hyperlink_id_def
      split: option.splits dest: match_v_nonempty)

lemma level_indices_nonempty: "level_indices l \<noteq> []"
  by (simp add: level_indices_def)

lemma derivePath_nonempty: "derivePath v \<noteq> []"
  by (simp add: derivePath_shape)

lemma derivePath_hd: "hd (derivePath v) = CHR ''/''"
proof -
  obtain i rest where "level_indices (element v) = i # rest"
    using level_indices_nonempty by (cases "level_indices (element v)") auto
  then show ?thesis by (simp add: derivePath_shape)
qed

lemma derivePath_last: "last (derivePath v) = CHR ''/''"
  by (simp add: derivePath_shape)

lemma make_id_Some:
  "make_id (Some u) path = (if u \<noteq> [] \<and> path \<noteq> [] then Some (path @ u) else None)"
  by (simp add: make_id_def)

lemma make_id_None: "make_id None path = None"
  by (simp add: make_id_def)

lemma getViewed_found:
  "querySelector (element v) getViewed_selectors = Some bar \<Longrightarrow>
   getViewed t v =
     (Some (case parseInt (slice_0_minus1 (style_width (el bar))) of
              None \<Rightarrow> False | Some p \<Rightarrow> t \<le> p),
      v\<lparr>viewed := Some (case parseInt (slice_0_minus1 (style_width (el bar))) of
                          None \<Rightarrow> False | Some p \<Rightarrow> t \<le> p)\<rparr>)"
  by (simp add: getViewed_def Let_def)

lemma getViewed_missing:
  "querySelector (element v) getViewed_selectors = None \<Longrightarrow> getViewed t v = (None, v)"
  by (simp add: getViewed_def)

lemma parse_percent:
  assumes "takeWhile is_digit frac = []"
  shows "parseInt (slice_0_minus1 (number_to_string n @ frac @ ''%'')) = Some (int n)"
proof -
  have "slice_0_minus1 (number_to_string n @ frac @ ''%'') = number_to_string n @ frac"
    using slice_snoc[of "number_to_string n @ frac" "CHR ''%''"] by simp
  then show ?thesis using assms by (simp add: parseInt_number)
qed

lemma Set_add_twice: "Set_add x (Set_add x xs) = Set_add x xs"
  by (simp add: Set_add_def)

lemma Set_add_distinct: "distinct xs \<Longrightarrow> distinct (Set_add x xs)"
  by (simp add: Set_add_def)

lemma Set_delete_distinct: "distinct xs \<Longrightarrow> distinct (Set_delete x xs)"
  by (simp add: Set_delete_def)

lemma Set_delete_absent: "x \<notin> set xs \<Longrightarrow> Set_delete x xs = xs"
  by (induction xs) (auto simp: Set_delete_def)

lemma Set_add_count: "distinct xs \<Longrightarrow> count_list (Set_add x xs) x = 1"
  by (induction xs) (auto simp: Set_add_def split: if_splits)

lemma filter_viewed_append:
  "filter_viewed t (xs @ ys) = filter_viewed t xs @ filter_viewed t ys"
  by (induction xs) (auto split: prod.splits)

lemma new_Extractor_ok: "Set_ok new_Extractor"
  by (simp add: Set_ok_def new_Extractor_def)

section \<open>The properties\<close>

subsection \<open>C1: which hyperlink deriveURL takes\<close>

text \<open>
  Against C1 as stated.  In the sample lockup the link that comes first in the document
  matches the eighth selector of the list and the link after it matches the fifth.  Tried
  in the order of the list, the fifth selector would decide and give \<open>xyz789\<close>;
  \<open>deriveURL\<close> answers \<open>abc123\<close>, the link that comes first in the document.
\<close>

theorem deriveURL_priority_counterexample:
  "deriveURL (new_Video (sample_element ''50%'')) = Inr (Some ''abc123'')
 \<and> deriveURL_by_priority (new_Video (sample_element ''50%'')) = Inr (Some ''xyz789'')"
  by code_simp

text \<open>
  C1, amended.  \<open>deriveURL\<close> takes the first element of the subtree, in document order,
  that matches any selector of the list, and reads the video id from its \<open>href\<close>; the
  order of the selectors within the list has no influence on the choice.
\<close>

theorem deriveURL_document_order:
  assumes "set selectors = set deriveURL_selectors"
  shows "deriveURL_from selectors v = deriveURL v
       \<and> deriveURL v =
           (case find (\<lambda>d. matches_any deriveURL_selectors (el d)) (descendants (element v)) of
              None \<Rightarrow> Inr None
            | Some hyperlink \<Rightarrow> hyperlink_id hyperlink)"
proof -
  have "matches_any selectors = matches_any deriveURL_selectors"
    using assms matches_any_set by blast
  then show ?thesis
    by (simp add: deriveURL_def deriveURL_from_def querySelector_find)
qed

theorem deriveURL_document_order_witness:
  "set (rev deriveURL_selectors) = set deriveURL_selectors
 \<and> deriveURL_from (rev deriveURL_selectors) (new_Video (sample_element ''50%'')) = Inr (Some ''abc123'')"
proof -
  have h: "set (rev deriveURL_selectors) = set deriveURL_selectors" by simp
  have "deriveURL (new_Video (sample_element ''50%'')) = Inr (Some ''abc123'')" by code_simp
  with deriveURL_document_order[OF h, of "new_Video (sample_element ''50%'')"] h
  show ?thesis by simp
qed

subsection \<open>C2: when getViewed writes the field\<close>

text \<open>
  Against C2 as stated.  The stale video has \<open>viewed = true\<close> from an earlier call and
  no progress bar any more: the call answers \<open>undefined\<close> and the field is still
  \<open>true\<close>.
\<close>

theorem getViewed_unconditional_counterexample:
  "fst (getViewed 50 stale_video) = None \<and> viewed (snd (getViewed 50 stale_video)) = Some True"
  by code_simp

text \<open>
  C2, amended.  A call to \<open>getViewed(threshold)\<close> that finds a progress bar overwrites
  \<open>viewed\<close> with its answer, a boolean, whatever was there; a call that finds none
  answers \<open>undefined\<close> and leaves the object, \<open>viewed\<close> included, as it was.
\<close>

theorem getViewed_writes_only_when_bar_found:
  "(querySelector (element v) getViewed_selectors = None \<longrightarrow> getViewed t v = (None, v))
 \<and> (querySelector (element v) getViewed_selectors \<noteq> None \<longrightarrow>
       fst (getViewed t v) \<noteq> None \<and> snd (getViewed t v) = v\<lparr>viewed := fst (getViewed t v)\<rparr>)"
proof (cases "querySelector (element v) getViewed_selectors")
  case None
  then have "getViewed t v = (None, v)" by (rule getViewed_missing)
  with None show ?thesis by simp
next
  case (Some bar)
  let ?answer = "case parseInt (slice_0_minus1 (style_width (el bar))) of
                   None \<Rightarrow> False | Some p \<Rightarrow> t \<le> p"
  from Some have "getViewed t v = (Some ?answer, v\<lparr>viewed := Some ?answer\<rparr>)"
    by (rule getViewed_found)
  with Some show ?thesis by simp
qed

theorem getViewed_writes_only_when_bar_found_witness:
  "getViewed 50 stale_video = (None, stale_video)
 \<and> snd (getViewed 50 (new_Video (sample_element ''50%''))) =
     (new_Video (sample_element ''50%''))\<lparr>viewed := Some True\<rparr>"
proof -
  have a: "querySelector (element stale_video) getViewed_selectors = None" by code_simp
  have b: "querySelector (element (new_Video (sample_element ''50%''))) getViewed_selectors \<noteq> None"
    by code_simp
  have c: "fst (getViewed 50 (new_Video (sample_element ''50%''))) = Some True" by code_simp
  from getViewed_writes_only_when_bar_found[of stale_video 50]
       getViewed_writes_only_when_bar_found[of "new_Video (sample_element ''50%'')" 50] a b c
  show ?thesis by simp
qed

subsection \<open>C3: the comparison with the threshold\<close>

text \<open>
  C3.  When the progress bar found in the subtree has the inline width \<open>n%\<close> (the
  decimal numeral of \<open>n\<close>, possibly followed by a fraction, then the percent sign),
  \<open>getViewed(threshold)\<close> answers \<open>true\<close> if \<open>n \<ge> threshold\<close> and \<open>false\<close>
  otherwise; more generally the answer compares whatever integer \<open>parseInt\<close> reads from
  the width without its last character.  Width \<open>50%\<close> with threshold 50 gives
  \<open>true\<close>, width \<open>49%\<close> with threshold 50 gives \<open>false\<close>.
\<close>

theorem getViewed_compares_parsed_width:
  assumes "querySelector (element v) getViewed_selectors = Some bar"
  shows "(style_width (el bar) = number_to_string n @ frac @ ''%'' \<and> takeWhile is_digit frac = []
            \<longrightarrow> fst (getViewed threshold v) = Some (threshold \<le> int n))
       \<and> (parseInt (slice_0_minus1 (style_width (el bar))) = Some p
            \<longrightarrow> fst (getViewed threshold v) = Some (threshold \<le> p))
       \<and> (style_width (el bar) = ''50%'' \<longrightarrow> fst (getViewed 50 v) = Some True)
       \<and> (style_width (el bar) = ''49%'' \<longrightarrow> fst (getViewed 50 v) = Some False)"
proof -
  have gen: "fst (getViewed t v) = Some (t \<le> int m)"
    if "style_width (el bar) = number_to_string m @ fr @ ''%''" "takeWhile is_digit fr = []"
    for m fr t
    using that assms by (simp add: getViewed_found parse_percent)
  have n50: "number_to_string 50 = ''50''" by code_simp
  have n49: "number_to_string 49 = ''49''" by code_simp
  have "fst (getViewed 50 v) = Some True" if "style_width (el bar) = ''50%''"
    using gen[of 50 "[]" 50] that n50 by simp
  moreover have "fst (getViewed 50 v) = Some False" if "style_width (el bar) = ''49%''"
    using gen[of 49 "[]" 50] that n49 by simp
  moreover have "fst (getViewed threshold v) = Some (threshold \<le> p)"
    if "parseInt (slice_0_minus1 (style_width (el bar))) = Some p"
    using that assms by (simp add: getViewed_found)
  ultimately show ?thesis using gen by blast
qed

theorem getViewed_compares_parsed_width_witness:
  "fst (getViewed 50 (new_Video (sample_element ''50%''))) = Some True
 \<and> fst (getViewed 50 (new_Video (sample_element ''49%''))) = Some False
 \<and> fst (getViewed 37 (new_Video (sample_element ''37.5%''))) = Some True"
proof -
  let ?bar = "\<lambda>w. the (querySelector (element (new_Video (sample_element w))) getViewed_selectors)"
  have q50: "querySelector (element (new_Video (sample_element ''50%''))) getViewed_selectors
               = Some (?bar ''50%'')"
    by code_simp
  have w50: "style_width (el (?bar ''50%'')) = ''50%''" by code_simp
  have q49: "querySelector (element (new_Video (sample_element ''49%''))) getViewed_selectors
               = Some (?bar ''49%'')"
    by code_simp
  have w49: "style_width (el (?bar ''49%'')) = ''49%''" by code_simp
  have q37: "querySelector (element (new_Video (sample_element ''37.5%''))) getViewed_selectors
               = Some (?bar ''37.5%'')"
    by code_simp
  have w37: "style_width (el (?bar ''37.5%'')) = number_to_string 37 @ ''.5'' @ ''%''"
    by code_simp
  have f37: "takeWhile is_digit ''.5'' = []" by code_simp
  from getViewed_compares_parsed_width[OF q50] w50
  have a: "fst (getViewed 50 (new_Video (sample_element ''50%''))) = Some True" by blast
  from getViewed_compares_parsed_width[OF q49] w49
  have b: "fst (getViewed 50 (new_Video (sample_element ''49%''))) = Some False" by blast
  from getViewed_compares_parsed_width[OF q37, of 37 "''.5''" 37] w37 f37
  have c: "fst (getViewed 37 (new_Video (sample_element ''37.5%''))) = Some True" by simp
  from a b c show ?thesis by simp
qed

subsection \<open>C4: the id needs both parts\<close>

text \<open>
  C4.  When \<open>deriveURL\<close> returns, \<open>fetchID\<close> sets \<open>id\<close> to the value that lines
  70 and 71 make of the url and the path, and returns it.  That value is the path followed
  by the url when both are truthy, and \<open>undefined\<close> when the url is \<open>undefined\<close> or
  empty or the path is empty: never an id from one side alone.
\<close>

theorem fetchID_needs_both:
  assumes "deriveURL v = Inr url"
  shows "fetchID v = (Inr (make_id url (derivePath v)), v\<lparr>video_id := make_id url (derivePath v)\<rparr>)
       \<and> make_id (Some u) path = (if u \<noteq> [] \<and> path \<noteq> [] then Some (path @ u) else None)
       \<and> make_id None path = None"
  using assms by (simp add: fetchID_def Let_def make_id_Some make_id_None)

theorem fetchID_needs_both_witness:
  "fetchID (new_Video (sample_element ''50%'')) =
     (Inr (Some ''/3/1/abc123''),
      (new_Video (sample_element ''50%''))\<lparr>video_id := Some ''/3/1/abc123''\<rparr>)"
proof -
  have u: "deriveURL (new_Video (sample_element ''50%'')) = Inr (Some ''abc123'')" by code_simp
  have p: "make_id (Some ''abc123'') (derivePath (new_Video (sample_element ''50%'')))
             = Some ''/3/1/abc123''"
    by code_simp
  from fetchID_needs_both[OF u] p show ?thesis by simp
qed

subsection \<open>C5: the path\<close>

text \<open>
  Against C5 as stated.  The sample lockup has one preceding sibling and no \<open>id\<close>; its
  parent has the id \<open>contents\<close> and three preceding siblings.  Counting only at the
  levels without an id, in the form \<open>/i1/.../in\<close>, would give \<open>/1\<close>;
  \<open>derivePath\<close> answers \<open>/3/1/\<close>.
\<close>

theorem derivePath_skips_levels_counterexample:
  "derivePath (new_Video (sample_element ''50%'')) = ''/3/1/''
 \<and> derivePath_as_specified (new_Video (sample_element ''50%'')) = ''/1''"
  by code_simp

text \<open>
  C5, amended.  \<open>derivePath\<close> walks upward from the wrapped element through the parent
  nodes up to the document and, at every element on the way, with or without an \<open>id\<close>
  attribute, counts the preceding siblings; the path is \<open>/i1/i2/.../in/\<close>, the counts
  from the outermost level to the element itself, each preceded by a slash, and one slash at
  the end.
\<close>

theorem derivePath_every_level:
  "derivePath v =
     concat (map (\<lambda>i. ''/'' @ number_to_string i) (level_indices (element v))) @ ''/''
 \<and> length (level_indices (element v)) = Suc (length (ups (element v)))"
proof -
  have "derivePath v = derivePath_loop (AtElement (element v)) ''/''"
    by (simp only: derivePath_def)
  also have "\<dots> =
      concat (map (\<lambda>i. ''/'' @ number_to_string i) (level_indices (element v))) @ ''/''"
    by (rule loop_indices)
  finally have shape: "derivePath v =
      concat (map (\<lambda>i. ''/'' @ number_to_string i) (level_indices (element v))) @ ''/''" .
  have "length (level_indices (element v)) = Suc (length (ups (element v)))"
    by (simp add: level_indices_def)
  with shape show ?thesis by simp
qed

subsection \<open>C6: getID tries again after a failure\<close>

text \<open>
  C6.  A call to \<open>getID\<close> that finds \<open>id\<close> undefined is a call to \<open>fetchID\<close>;
  this holds in particular for the object a failed \<open>fetchID\<close> leaves, whose \<open>id\<close> is
  undefined again, so a failure is never kept.  A call that finds a truthy \<open>id\<close> returns
  it and changes nothing.
\<close>

theorem getID_retries_after_failure:
  "(video_id v = None \<longrightarrow> getID v = fetchID v)
 \<and> (truthy (video_id v) \<longrightarrow> getID v = (Inr (video_id v), v))
 \<and> (fetchID v = (Inr None, v') \<longrightarrow> video_id v' = None \<and> getID v' = fetchID v')"
proof -
  have retry: "getID w = fetchID w" if "video_id w = None" for w
    using that by (simp add: getID_def)
  have kept: "getID v = (Inr (video_id v), v)" if "truthy (video_id v)"
    using that by (simp add: getID_def)
  have failed: "video_id v' = None" if "fetchID v = (Inr None, v')"
  proof (cases "deriveURL v")
    case (Inl err)
    with that show ?thesis by (simp add: fetchID_def)
  next
    case (Inr url)
    with that show ?thesis by (auto simp: fetchID_def Let_def)
  qed
  from retry kept failed show ?thesis by blast
qed

theorem getID_retries_after_failure_witness:
  "getID (new_Video (sample_lockup [])) = fetchID (new_Video (sample_lockup []))
 \<and> fst (fetchID (new_Video (sample_lockup []))) = Inr None
 \<and> getID (snd (fetchID (new_Video (sample_lockup []))))
     = fetchID (snd (fetchID (new_Video (sample_lockup []))))
 \<and> getID (snd (fetchID (new_Video (sample_element ''50%'')))) =
     (Inr (Some ''/3/1/abc123''), snd (fetchID (new_Video (sample_element ''50%''))))"
proof -
  let ?failed = "new_Video (sample_lockup [])"
  let ?done = "snd (fetchID (new_Video (sample_element ''50%'')))"
  have a: "video_id ?failed = None" by code_simp
  have b: "fetchID ?failed = (Inr None, snd (fetchID ?failed))" by code_simp
  have c: "truthy (video_id ?done)" by code_simp
  have d: "video_id ?done = Some ''/3/1/abc123''" by code_simp
  from getID_retries_after_failure[of ?failed "snd (fetchID ?failed)"] a b
  have 1: "getID ?failed = fetchID ?failed"
    and 2: "getID (snd (fetchID ?failed)) = fetchID (snd (fetchID ?failed))" by simp_all
  from getID_retries_after_failure[of ?done] c d
  have 3: "getID ?done = (Inr (Some ''/3/1/abc123''), ?done)" by simp
  from b have 4: "fst (fetchID ?failed) = Inr None" by (metis fst_conv)
  from 1 2 3 4 show ?thesis by simp
qed

subsection \<open>C7: hide, then show\<close>

text \<open>
  C7.  For an element with any display value, the empty string included, \<open>hide\<close>
  followed by \<open>show\<close> on the video built from it leaves the element with the display
  value it had, and the element as a whole as it was: \<open>show\<close> writes the value the
  constructor read.  In between, the display value is \<open>none\<close>.
\<close>

theorem hide_then_show_restores:
  "style_display (el (element (show_video (hide (new_Video e))))) = style_display (el e)
 \<and> element (show_video (hide (new_Video e))) = e
 \<and> style_display (el (element (hide (new_Video e)))) = ''none''"
  by (simp add: show_video_def hide_def new_Video_def set_display_def)

subsection \<open>C8: a lower threshold keeps the answer true\<close>

text \<open>
  C8.  On one and the same video, hence with the same progress bar, if
  \<open>getViewed(t2)\<close> answers \<open>true\<close> and \<open>t1 < t2\<close>, then \<open>getViewed(t1)\<close>
  answers \<open>true\<close>.
\<close>

theorem getViewed_antitone:
  assumes "t1 < t2" and "fst (getViewed t2 v) = Some True"
  shows "fst (getViewed t1 v) = Some True"
proof (cases "querySelector (element v) getViewed_selectors")
  case None
  with assms show ?thesis by (simp add: getViewed_missing)
next
  case (Some bar)
  with assms show ?thesis
    by (auto simp: getViewed_found split: option.splits)
qed

theorem getViewed_antitone_witness:
  "(49::int) < 50 \<and> fst (getViewed 49 (new_Video (sample_element ''50%''))) = Some True"
proof -
  have h: "(49::int) < 50" by simp
  have g: "fst (getViewed 50 (new_Video (sample_element ''50%''))) = Some True" by code_simp
  from getViewed_antitone[OF h g] h show ?thesis by simp
qed

subsection \<open>C9: the registry is a set\<close>

text \<open>
  C9.  On an extractor whose registry holds each member once (as every registry built by
  \<open>insert\<close> and \<open>remove\<close> from the empty one does), inserting the same reference
  \<open>f\<close> twice gives the extractor that inserting it once gives: \<open>f\<close> is a member
  once, every \<open>extract\<close> answers alike on both, and where \<open>f\<close> was not a member
  before, the answer is that of the old registry followed by the viewed videos of
  \<open>f\<close>, once.  Removing a reference that is not a member changes nothing.
\<close>

theorem insert_twice_remove_absent:
  assumes "Set_ok ex"
  shows "Extractor_insert f (Extractor_insert f ex) = Extractor_insert f ex
       \<and> count_list (subextractors (Extractor_insert f (Extractor_insert f ex))) f = 1
       \<and> Extractor_extract call (Extractor_insert f (Extractor_insert f ex)) e t =
           Extractor_extract call (Extractor_insert f ex) e t
       \<and> (f \<in> set (subextractors ex) \<longrightarrow> Extractor_insert f ex = ex)
       \<and> (f \<notin> set (subextractors ex) \<longrightarrow>
            Extractor_remove f ex = ex
          \<and> Extractor_extract call (Extractor_insert f (Extractor_insert f ex)) e t =
              Extractor_extract call ex e t @ filter_viewed t (map new_Video (call f e)))
       \<and> Set_ok (Extractor_insert f ex) \<and> Set_ok (Extractor_remove f ex)"
proof -
  have twice: "Extractor_insert f (Extractor_insert f ex) = Extractor_insert f ex"
    by (simp add: Extractor_insert_def Set_add_twice)
  have cnt: "count_list (subextractors (Extractor_insert f ex)) f = 1"
    using assms by (simp add: Extractor_insert_def Set_ok_def Set_add_count)
  have present: "Extractor_insert f ex = ex" if "f \<in> set (subextractors ex)"
    using that by (simp add: Extractor_insert_def Set_add_def)
  have absent: "Extractor_remove f ex = ex" if "f \<notin> set (subextractors ex)"
    using that by (simp add: Extractor_remove_def Set_delete_absent)
  have once: "Extractor_extract call (Extractor_insert f ex) e t =
                Extractor_extract call ex e t @ filter_viewed t (map new_Video (call f e))"
    if "f \<notin> set (subextractors ex)"
    using that
    by (simp add: Extractor_extract_def Extractor_insert_def Set_add_def filter_viewed_append)
  have ok: "Set_ok (Extractor_insert f ex)" "Set_ok (Extractor_remove f ex)"
    using assms
    by (simp_all add: Set_ok_def Extractor_insert_def Extractor_remove_def
        Set_add_distinct Set_delete_distinct)
  show ?thesis using twice cnt present absent once ok by simp
qed

theorem insert_twice_remove_absent_witness:
  "Set_ok (Extractor_insert GridVideos new_Extractor)
 \<and> map element (Extractor_extract call_builtin
      (Extractor_insert HomeVideos (Extractor_insert HomeVideos (Extractor_insert GridVideos new_Extractor)))
      sample_contents 50) = [sample_element ''50%'']
 \<and> Extractor_remove HomeVideos (Extractor_insert GridVideos new_Extractor)
      = Extractor_insert GridVideos new_Extractor"
proof -
  let ?ex = "Extractor_insert GridVideos new_Extractor :: builtin extractor"
  have ok: "Set_ok ?ex" by code_simp
  have fresh: "HomeVideos \<notin> set (subextractors ?ex)" by code_simp
  have one: "map element (Extractor_extract call_builtin (Extractor_insert HomeVideos ?ex) sample_contents 50)
               = [sample_element ''50%'']"
    by code_simp
  from insert_twice_remove_absent[OF ok, of HomeVideos call_builtin sample_contents 50] fresh one
  show ?thesis using ok by simp
qed

subsection \<open>C10: the path is never empty\<close>

text \<open>
  C10.  \<open>derivePath\<close> returns a string that is not empty and begins and ends with a
  slash, so the path is always truthy; and \<open>fetchID\<close> returns \<open>undefined\<close> exactly
  when \<open>deriveURL\<close> returns \<open>undefined\<close>.
\<close>

theorem derivePath_is_truthy:
  "derivePath v \<noteq> [] \<and> hd (derivePath v) = CHR ''/'' \<and> last (derivePath v) = CHR ''/''
 \<and> truthy (Some (derivePath v))
 \<and> (fst (fetchID v) = Inr None) = (deriveURL v = Inr None)"
proof -
  have "(fst (fetchID v) = Inr None) = (deriveURL v = Inr None)"
  proof (cases "deriveURL v")
    case (Inl err)
    then show ?thesis by (simp add: fetchID_def)
  next
    case (Inr url)
    show ?thesis
    proof (cases url)
      case None
      with Inr show ?thesis by (simp add: fetchID_def Let_def make_id_None)
    next
      case (Some g)
      with Inr have "g \<noteq> []" using deriveURL_nonempty by simp
      with Inr Some show ?thesis
        by (simp add: fetchID_def Let_def make_id_Some derivePath_nonempty)
    qed
  qed
  then show ?thesis by (simp add: derivePath_nonempty derivePath_hd derivePath_last)
qed

end
